theory Spec2Isabelle
  imports Main "HOL-Library.Word"
begin

section \<open>Data model (MQTTClientWorker.h, MQTTClient.h)\<close>

text \<open>
  \<open>int32\<close> is a 32-bit machine integer (read as two's complement by \<open>sint\<close>);
  \<open>FString\<close> is a character sequence whose \<open>IsEmpty()\<close> is \<open>s = []\<close>.
\<close>

type_synonym int32 = "32 word"
type_synonym FString = string

text \<open>\<open>struct FMQTTOutgoing\<close>: an outgoing publish request.\<close>

record FMQTTOutgoing =
  Topic :: FString
  Payload :: FString
  QoS :: int32
  bRetain :: bool

text \<open>
  \<open>struct FMQTTSubscriptionRequest\<close>. Its \<open>QoS\<close> member is named \<open>SubQoS\<close> here,
  since a field name belongs to one record only.
\<close>

record FMQTTSubscriptionRequest =
  TopicFilter :: FString
  SubQoS :: int32
  bSubscribe :: bool

text \<open>The two threads of control: the owner's game thread and the worker's own thread.\<close>

datatype thread = GameThread | WorkerThread

text \<open>
  The three delegates of \<open>UMQTTClient\<close> with their arguments: \<open>OnConnected\<close>,
  \<open>OnDisconnected(Reason)\<close>, \<open>OnMessageReceived(Topic, Payload)\<close>.
\<close>

datatype notification =
  Connected
| Disconnected FString
| MessageReceived FString FString

text \<open>
  \<open>TQueue<T, EQueueMode::Mpsc>\<close> as the list of its items, head first:
  \<open>Enqueue\<close> adds at the tail, \<open>Dequeue\<close> removes the head and reports whether
  there was one.
\<close>

definition Enqueue :: "'a \<Rightarrow> 'a list \<Rightarrow> 'a list" where
  "Enqueue x q = q @ [x]"

fun Dequeue :: "'a list \<Rightarrow> ('a \<times> 'a list) option" where
  "Dequeue [] = None"
| "Dequeue (x # q) = Some (x, q)"

text \<open>
  \<open>class FMQTTWorker\<close>. \<open>Owner\<close> holds whether the weak owner pointer still resolves
  (\<open>Owner.Get()\<close> is not null), \<open>Thread\<close> whether the thread handle is set, \<open>WakeEvent\<close>
  whether the auto-reset event is signalled. \<open>Socket\<close> is never assigned and \<open>Mutex\<close>
  guards single calls, which are taken as atomic here; both are left out.
  Two histories record what the worker does to the outside: \<open>GameThreadTasks\<close> are the
  delegate broadcasts posted by \<open>AsyncTask(ENamedThreads::GameThread, ...)\<close>, in posting
  order; \<open>NotifyCalls\<close> are the invocations of the three \<open>Notify...\<close> helpers, each with
  the thread that made the call.
\<close>

record FMQTTWorker =
  Owner :: bool
  Thread :: bool
  WakeEvent :: bool
  OutgoingMessages :: "FMQTTOutgoing list"
  SubscriptionRequests :: "FMQTTSubscriptionRequest list"
  Host :: FString
  Port :: int32
  bUseTLS :: bool
  Username :: FString
  Password :: FString
  ClientId :: FString
  KeepAliveSeconds :: int32
  bStopRequested :: bool
  bConnected :: bool
  bShutdownComplete :: bool
  GameThreadTasks :: "notification list"
  NotifyCalls :: "(thread \<times> notification) list"

section \<open>FMQTTWorker (MQTTClient.cpp)\<close>

text \<open>The constructor \<open>FMQTTWorker(UMQTTClient* InOwner)\<close>; the argument says whether
  \<open>InOwner\<close> is a live object.\<close>

definition FMQTTWorker_new :: "bool \<Rightarrow> FMQTTWorker" where
  "FMQTTWorker_new InOwner =
     \<lparr> Owner = InOwner, Thread = False, WakeEvent = False,
       OutgoingMessages = [], SubscriptionRequests = [],
       Host = [], Port = 1883, bUseTLS = False,
       Username = [], Password = [], ClientId = [], KeepAliveSeconds = 60,
       bStopRequested = False, bConnected = False, bShutdownComplete = False,
       GameThreadTasks = [], NotifyCalls = [] \<rparr>"

text \<open>\<open>WakeWorker\<close>: trigger the wake event.\<close>

definition WakeWorker :: "FMQTTWorker \<Rightarrow> FMQTTWorker" where
  "WakeWorker s = s\<lparr>WakeEvent := True\<rparr>"

text \<open>
  The three helpers share one shape: resolve the weak owner pointer, return when it is
  null, else post the broadcast to the game thread. The first argument is the thread
  executing the call.
\<close>

definition NotifyConnected :: "thread \<Rightarrow> FMQTTWorker \<Rightarrow> FMQTTWorker" where
  "NotifyConnected t s =
     (let s1 = s\<lparr>NotifyCalls := NotifyCalls s @ [(t, Connected)]\<rparr> in
      if \<not> Owner s1 then s1
      else s1\<lparr>GameThreadTasks := GameThreadTasks s1 @ [Connected]\<rparr>)"

definition NotifyDisconnected :: "thread \<Rightarrow> FString \<Rightarrow> FMQTTWorker \<Rightarrow> FMQTTWorker" where
  "NotifyDisconnected t Reason s =
     (let s1 = s\<lparr>NotifyCalls := NotifyCalls s @ [(t, Disconnected Reason)]\<rparr> in
      if \<not> Owner s1 then s1
      else s1\<lparr>GameThreadTasks := GameThreadTasks s1 @ [Disconnected Reason]\<rparr>)"

definition NotifyMessageReceived ::
  "thread \<Rightarrow> FString \<Rightarrow> FString \<Rightarrow> FMQTTWorker \<Rightarrow> FMQTTWorker" where
  "NotifyMessageReceived t T P s =
     (let s1 = s\<lparr>NotifyCalls := NotifyCalls s @ [(t, MessageReceived T P)]\<rparr> in
      if \<not> Owner s1 then s1
      else s1\<lparr>GameThreadTasks := GameThreadTasks s1 @ [MessageReceived T P]\<rparr>)"

text \<open>\<open>Start\<close>: the argument is whether \<open>FRunnableThread::Create\<close> returns a thread.\<close>

definition FMQTTWorker_Start :: "bool \<Rightarrow> FMQTTWorker \<Rightarrow> bool \<times> FMQTTWorker" where
  "FMQTTWorker_Start created s =
     (if Thread s then (True, s)
      else if \<not> created then (False, s)
      else (True, s\<lparr>Thread := True\<rparr>))"

definition FMQTTWorker_Stop :: "FMQTTWorker \<Rightarrow> FMQTTWorker" where
  "FMQTTWorker_Stop s = s\<lparr>bStopRequested := True, WakeEvent := True\<rparr>"

text \<open>
  \<open>Shutdown\<close>: stop, signal, then wait up to a second for \<open>bShutdownComplete\<close>, kill the
  thread if it is still unset, and drop the handle. The first argument is the outcome
  of the wait: whether the worker thread left \<open>Run\<close> in time, in which case it has set
  \<open>bShutdownComplete\<close>; otherwise the thread is killed and the flag stays as it was.
  What the worker does before it leaves \<open>Run\<close> are turns of the worker thread.
\<close>

definition FMQTTWorker_Shutdown :: "bool \<Rightarrow> FMQTTWorker \<Rightarrow> FMQTTWorker" where
  "FMQTTWorker_Shutdown left_run s =
     (let s1 = FMQTTWorker_Stop s;
          s2 = s1\<lparr>bStopRequested := True, WakeEvent := True\<rparr>
      in if Thread s2
         then (let s3 = (if left_run then s2\<lparr>bShutdownComplete := True\<rparr> else s2)
               in s3\<lparr>Thread := False\<rparr>)
         else s2)"

definition FMQTTWorker_Connect ::
  "FString \<Rightarrow> int32 \<Rightarrow> bool \<Rightarrow> FMQTTWorker \<Rightarrow> bool \<times> FMQTTWorker" where
  "FMQTTWorker_Connect InHost InPort bInUseTLS s =
     (True, WakeWorker (s\<lparr>Host := InHost, Port := InPort, bUseTLS := bInUseTLS\<rparr>))"

text \<open>\<open>Disconnect(bool bForce)\<close>, run by thread \<open>t\<close>.\<close>

definition FMQTTWorker_Disconnect :: "thread \<Rightarrow> bool \<Rightarrow> FMQTTWorker \<Rightarrow> FMQTTWorker" where
  "FMQTTWorker_Disconnect t bForce s =
     (let s1 = s\<lparr>Host := []\<rparr>;
          s2 = (if bConnected s1
                then NotifyDisconnected t ''Client requested disconnect''
                       (s1\<lparr>bConnected := False\<rparr>)
                else s1)
      in WakeWorker s2)"

definition FMQTTWorker_Publish ::
  "FString \<Rightarrow> FString \<Rightarrow> int32 \<Rightarrow> bool \<Rightarrow> FMQTTWorker \<Rightarrow> bool \<times> FMQTTWorker" where
  "FMQTTWorker_Publish T P Q R s =
     (True, WakeWorker (s\<lparr>OutgoingMessages :=
        Enqueue \<lparr>Topic = T, Payload = P, QoS = Q, bRetain = R\<rparr> (OutgoingMessages s)\<rparr>))"

definition FMQTTWorker_Subscribe ::
  "FString \<Rightarrow> int32 \<Rightarrow> FMQTTWorker \<Rightarrow> bool \<times> FMQTTWorker" where
  "FMQTTWorker_Subscribe F Q s =
     (True, WakeWorker (s\<lparr>SubscriptionRequests :=
        Enqueue \<lparr>TopicFilter = F, SubQoS = Q, bSubscribe = True\<rparr> (SubscriptionRequests s)\<rparr>))"

definition FMQTTWorker_Unsubscribe :: "FString \<Rightarrow> FMQTTWorker \<Rightarrow> bool \<times> FMQTTWorker" where
  "FMQTTWorker_Unsubscribe F s =
     (True, WakeWorker (s\<lparr>SubscriptionRequests :=
        Enqueue \<lparr>TopicFilter = F, SubQoS = 0, bSubscribe = False\<rparr> (SubscriptionRequests s)\<rparr>))"

definition FMQTTWorker_IsConnected :: "FMQTTWorker \<Rightarrow> bool" where
  "FMQTTWorker_IsConnected s = bConnected s"

definition FMQTTWorker_SetClientId :: "FString \<Rightarrow> FMQTTWorker \<Rightarrow> FMQTTWorker" where
  "FMQTTWorker_SetClientId InClientId s = s\<lparr>ClientId := InClientId\<rparr>"

definition FMQTTWorker_SetCredentials ::
  "FString \<Rightarrow> FString \<Rightarrow> FMQTTWorker \<Rightarrow> FMQTTWorker" where
  "FMQTTWorker_SetCredentials InUsername InPassword s =
     s\<lparr>Username := InUsername, Password := InPassword\<rparr>"

definition FMQTTWorker_SetKeepAlive :: "int32 \<Rightarrow> FMQTTWorker \<Rightarrow> FMQTTWorker" where
  "FMQTTWorker_SetKeepAlive InKeepAliveSeconds s = s\<lparr>KeepAliveSeconds := InKeepAliveSeconds\<rparr>"

subsection \<open>The body of the loop of \<open>Run\<close>\<close>

text \<open>Waiting on the auto-reset event returns on a trigger or after 200 ms, and leaves
  the event reset.\<close>

definition wait_wake :: "FMQTTWorker \<Rightarrow> FMQTTWorker" where
  "wait_wake s = s\<lparr>WakeEvent := False\<rparr>"

text \<open>The simulated connection attempt: it has one outcome.\<close>

definition connect_pending :: "thread \<Rightarrow> FMQTTWorker \<Rightarrow> FMQTTWorker" where
  "connect_pending t s =
     (if \<not> bConnected s \<and> Host s \<noteq> []
      then NotifyConnected t (s\<lparr>bConnected := True\<rparr>)
      else s)"

text \<open>\<open>while (OutgoingMessages.Dequeue(Out)) NotifyMessageReceived(Out.Topic, Out.Payload);\<close>\<close>

function drain_outgoing :: "thread \<Rightarrow> FMQTTWorker \<Rightarrow> FMQTTWorker" where
  "drain_outgoing t s =
     (case Dequeue (OutgoingMessages s) of
        None \<Rightarrow> s
      | Some (Out, q) \<Rightarrow>
          drain_outgoing t
            (NotifyMessageReceived t (Topic Out) (Payload Out) (s\<lparr>OutgoingMessages := q\<rparr>)))"
  by pat_completeness auto
termination
proof (relation "measure (\<lambda>(t, s). length (OutgoingMessages s))")
  show "wf (measure (\<lambda>(t, s). length (OutgoingMessages s)))"
    by simp
next
  fix t :: thread and s :: FMQTTWorker and x2 Out q
  assume "Dequeue (OutgoingMessages s) = Some x2" and "(Out, q) = x2"
  then have "OutgoingMessages s = Out # q"
    by (cases "OutgoingMessages s") auto
  then show "((t, NotifyMessageReceived t (Topic Out) (Payload Out) (s\<lparr>OutgoingMessages := q\<rparr>)),
              (t, s)) \<in> measure (\<lambda>(t, s). length (OutgoingMessages s))"
    by (simp add: NotifyMessageReceived_def Let_def)
qed

text \<open>\<open>while (SubscriptionRequests.Dequeue(SubReq)) { log only }\<close>\<close>

function drain_subscriptions :: "FMQTTWorker \<Rightarrow> FMQTTWorker" where
  "drain_subscriptions s =
     (case Dequeue (SubscriptionRequests s) of
        None \<Rightarrow> s
      | Some (SubReq, q) \<Rightarrow> drain_subscriptions (s\<lparr>SubscriptionRequests := q\<rparr>))"
  by pat_completeness auto
termination
proof (relation "measure (\<lambda>s. length (SubscriptionRequests s))")
  show "wf (measure (\<lambda>s. length (SubscriptionRequests s)))"
    by simp
next
  fix s :: FMQTTWorker and x2 SubReq q
  assume "Dequeue (SubscriptionRequests s) = Some x2" and "(SubReq, q) = x2"
  then have "SubscriptionRequests s = SubReq # q"
    by (cases "SubscriptionRequests s") auto
  then show "(s\<lparr>SubscriptionRequests := q\<rparr>, s) \<in> measure (\<lambda>s. length (SubscriptionRequests s))"
    by simp
qed

declare drain_outgoing.simps [simp del] drain_subscriptions.simps [simp del]

text \<open>One pass through the body of \<open>while (!bStopRequested)\<close>, run by thread \<open>t\<close>.\<close>

definition Run_iteration :: "thread \<Rightarrow> FMQTTWorker \<Rightarrow> FMQTTWorker" where
  "Run_iteration t s = drain_subscriptions (drain_outgoing t (connect_pending t (wait_wake s)))"

text \<open>One turn of the worker thread inside \<open>Run\<close> when nothing else runs during it:
  leave the loop when a stop was requested, else run the body once. The schedules in
  which an owner call falls inside a pass (a stop during the wait, a disconnect after
  the test of line 334) are those of \<open>interleaved_run\<close> below.\<close>

definition Run_turn :: "FMQTTWorker \<Rightarrow> FMQTTWorker" where
  "Run_turn s =
     (if bStopRequested s then s\<lparr>bShutdownComplete := True\<rparr>
      else Run_iteration WorkerThread s)"

subsection \<open>Executions: owner calls interleaved with turns of the worker thread\<close>

text \<open>
  An execution is a sequence of events. The owner's calls reach the worker from the game
  thread; \<open>Worker_Turn\<close> is one turn of the worker thread in \<open>Run\<close>; \<open>Owner_Released\<close>
  is the owner object going away, after which the weak pointer no longer resolves. In
  \<open>step\<close> and \<open>run_events\<close> each event is one atomic step, a turn of the worker being a
  whole pass of its loop: these are the executions in which owner calls fall between
  passes. \<open>Run\<close> takes no lock, so an owner call can also fall inside a pass; those
  executions are \<open>interleaved_run\<close>, defined after these.
\<close>

datatype event =
  Call_Connect FString int32 bool
| Call_Disconnect bool
| Call_Publish FString FString int32 bool
| Call_Subscribe FString int32
| Call_Unsubscribe FString
| Call_SetClientId FString
| Call_SetCredentials FString FString
| Call_SetKeepAlive int32
| Call_Stop
| Owner_Released
| Worker_Turn

fun step :: "event \<Rightarrow> FMQTTWorker \<Rightarrow> FMQTTWorker" where
  "step (Call_Connect InHost InPort bInUseTLS) s = snd (FMQTTWorker_Connect InHost InPort bInUseTLS s)"
| "step (Call_Disconnect bForce) s = FMQTTWorker_Disconnect GameThread bForce s"
| "step (Call_Publish T P Q R) s = snd (FMQTTWorker_Publish T P Q R s)"
| "step (Call_Subscribe F Q) s = snd (FMQTTWorker_Subscribe F Q s)"
| "step (Call_Unsubscribe F) s = snd (FMQTTWorker_Unsubscribe F s)"
| "step (Call_SetClientId I) s = FMQTTWorker_SetClientId I s"
| "step (Call_SetCredentials U P) s = FMQTTWorker_SetCredentials U P s"
| "step (Call_SetKeepAlive K) s = FMQTTWorker_SetKeepAlive K s"
| "step Call_Stop s = FMQTTWorker_Stop s"
| "step Owner_Released s = s\<lparr>Owner := False\<rparr>"
| "step Worker_Turn s = Run_turn s"

fun run_events :: "event list \<Rightarrow> FMQTTWorker \<Rightarrow> FMQTTWorker" where
  "run_events [] s = s"
| "run_events (e # es) s = run_events es (step e s)"

fun is_Disconnect :: "event \<Rightarrow> bool" where
  "is_Disconnect (Call_Disconnect bForce) = True"
| "is_Disconnect e = False"

text \<open>A \<open>Connect\<close> call that records a non-empty host.\<close>

fun records_host :: "event \<Rightarrow> bool" where
  "records_host (Call_Connect InHost InPort bInUseTLS) = (InHost \<noteq> [])"
| "records_host e = False"

subsection \<open>Executions with owner calls inside a pass\<close>

text \<open>
  Where the worker thread stands in \<open>Run\<close>: before the loop's test of \<open>bStopRequested\<close>
  (line 319), in the wait (line 325), past the test of line 334 with its outcome, before
  the two drain loops (line 353), or out of the loop.
\<close>

datatype position = At_Head | At_Wait | Past_Guard bool | At_Drain | Exited

text \<open>The test of line 334, and the two statements it guards (lines 346 and 347).\<close>

definition connect_guard :: "FMQTTWorker \<Rightarrow> bool" where
  "connect_guard s = (\<not> bConnected s \<and> Host s \<noteq> [])"

definition establish :: "thread \<Rightarrow> FMQTTWorker \<Rightarrow> FMQTTWorker" where
  "establish t s = NotifyConnected t (s\<lparr>bConnected := True\<rparr>)"

text \<open>
  The worker thread's progress from one position to the next. Each equation is one
  stretch of \<open>Run\<close> during which no owner call is taken to run: the loop's test; the end
  of the wait and the test of line 334; the guarded statements; the two drain loops.
\<close>

fun Run_section :: "position \<times> FMQTTWorker \<Rightarrow> position \<times> FMQTTWorker" where
  "Run_section (At_Head, s) =
     (if bStopRequested s then (Exited, s\<lparr>bShutdownComplete := True\<rparr>) else (At_Wait, s))"
| "Run_section (At_Wait, s) = (let s1 = wait_wake s in (Past_Guard (connect_guard s1), s1))"
| "Run_section (Past_Guard attempt, s) =
     (At_Drain, if attempt then establish WorkerThread s else s)"
| "Run_section (At_Drain, s) =
     (At_Head, drain_subscriptions (drain_outgoing WorkerThread s))"
| "Run_section (Exited, s) = (Exited, s)"

text \<open>Here a turn of the worker is one such stretch, and an owner call runs wherever
  the worker stands.\<close>

fun interleaved_step :: "event \<Rightarrow> position \<times> FMQTTWorker \<Rightarrow> position \<times> FMQTTWorker" where
  "interleaved_step Worker_Turn ps = Run_section ps"
| "interleaved_step e (p, s) = (p, step e s)"

fun interleaved_run ::
  "event list \<Rightarrow> position \<times> FMQTTWorker \<Rightarrow> position \<times> FMQTTWorker" where
  "interleaved_run [] ps = ps"
| "interleaved_run (e # es) ps = interleaved_run es (interleaved_step e ps)"

text \<open>Two measures for the invariants of these executions: the worker stands past a
  guard that held only while it is disconnected; and a disconnected worker has one
  establishment still to come, a connected one none.\<close>

definition guard_fresh :: "position \<times> FMQTTWorker \<Rightarrow> bool" where
  "guard_fresh ps = (fst ps = Past_Guard True \<longrightarrow> \<not> bConnected (snd ps))"

definition pending :: "position \<times> FMQTTWorker \<Rightarrow> nat" where
  "pending ps = (if bConnected (snd ps) then 0 else 1)"

text \<open>The owner's call \<open>Publish(m.Topic, m.Payload, m.QoS, m.bRetain)\<close>.\<close>

definition publish_event :: "FMQTTOutgoing \<Rightarrow> event" where
  "publish_event m = Call_Publish (Topic m) (Payload m) (QoS m) (bRetain m)"

subsection \<open>Observations on the two histories\<close>

text \<open>The loop-back of an outgoing message: a received message with its topic and payload.\<close>

definition echo_of :: "FMQTTOutgoing \<Rightarrow> notification" where
  "echo_of m = MessageReceived (Topic m) (Payload m)"

text \<open>What was invoked, and what was posted, between an earlier state and a later one.\<close>

definition fired_since :: "FMQTTWorker \<Rightarrow> FMQTTWorker \<Rightarrow> (thread \<times> notification) list" where
  "fired_since s s' = drop (length (NotifyCalls s)) (NotifyCalls s')"

definition posted_since :: "FMQTTWorker \<Rightarrow> FMQTTWorker \<Rightarrow> notification list" where
  "posted_since s s' = drop (length (GameThreadTasks s)) (GameThreadTasks s')"

text \<open>How often \<open>NotifyConnected\<close> was invoked, and how often \<open>OnConnected\<close> was posted.\<close>

definition connected_fired :: "FMQTTWorker \<Rightarrow> nat" where
  "connected_fired s = length (filter (\<lambda>c. snd c = Connected) (NotifyCalls s))"

definition connected_posted :: "FMQTTWorker \<Rightarrow> nat" where
  "connected_posted s = length (filter (\<lambda>n. n = Connected) (GameThreadTasks s))"

section \<open>UMQTTClient (MQTTClient.cpp)\<close>

text \<open>\<open>struct UMQTTClient::FImpl\<close>: the worker pointer, null or owning a worker.\<close>

record FImpl =
  Worker :: "FMQTTWorker option"

text \<open>
  \<open>class UMQTTClient\<close>. \<open>Impl\<close> is the \<open>TUniquePtr<FImpl>\<close>, \<open>None\<close> once reset. The
  configuration members that share a name with a member of the worker carry the
  prefix \<open>U_\<close>.
\<close>

record UMQTTClient =
  Impl :: "FImpl option"
  Broker :: FString
  U_Port :: int32
  U_bUseTLS :: bool
  U_Username :: FString
  U_Password :: FString
  U_ClientId :: FString
  U_KeepAliveSeconds :: int32
  U_bConnected :: bool

text \<open>Dereferencing the null \<open>Impl\<close> is a fault.\<close>

datatype fault = NullDereference

definition UMQTTClient_new :: UMQTTClient where
  "UMQTTClient_new =
     \<lparr> Impl = Some \<lparr>Worker = None\<rparr>, Broker = [], U_Port = 1883, U_bUseTLS = False,
       U_Username = [], U_Password = [], U_ClientId = [], U_KeepAliveSeconds = 60,
       U_bConnected = False \<rparr>"

text \<open>\<open>Connect\<close>; the first argument is whether the worker's thread can be created.\<close>

definition UMQTTClient_Connect ::
  "bool \<Rightarrow> FString \<Rightarrow> int32 \<Rightarrow> bool \<Rightarrow> UMQTTClient \<Rightarrow> fault + (bool \<times> UMQTTClient)" where
  "UMQTTClient_Connect created BrokerAddress BrokerPort bInUseTLS c =
     (let c1 = c\<lparr>Broker := BrokerAddress, U_Port := BrokerPort, U_bUseTLS := bInUseTLS\<rparr> in
      case Impl c1 of
        None \<Rightarrow> Inl NullDereference
      | Some i \<Rightarrow>
          (case (case Worker i of
                   Some w \<Rightarrow> Some w
                 | None \<Rightarrow>
                     (let (started, w) = FMQTTWorker_Start created (FMQTTWorker_new True)
                      in if \<not> started then None else Some w)) of
             None \<Rightarrow> Inr (False, c1\<lparr>Impl := Some (i\<lparr>Worker := None\<rparr>)\<rparr>)
           | Some w \<Rightarrow>
               (let w1 = FMQTTWorker_SetClientId (U_ClientId c1) w;
                    w2 = FMQTTWorker_SetCredentials (U_Username c1) (U_Password c1) w1;
                    w3 = FMQTTWorker_SetKeepAlive (U_KeepAliveSeconds c1) w2;
                    w4 = snd (FMQTTWorker_Connect (Broker c1) (U_Port c1) (U_bUseTLS c1) w3)
                in Inr (True, c1\<lparr>Impl := Some (i\<lparr>Worker := Some w4\<rparr>)\<rparr>))))"

text \<open>The members below are \<open>BlueprintCallable\<close>: they run on the game thread.\<close>

definition UMQTTClient_Disconnect :: "bool \<Rightarrow> UMQTTClient \<Rightarrow> UMQTTClient" where
  "UMQTTClient_Disconnect bForce c =
     (case Impl c of
        None \<Rightarrow> c
      | Some i \<Rightarrow>
          (case Worker i of
             None \<Rightarrow> c
           | Some w \<Rightarrow>
               c\<lparr>Impl := Some (i\<lparr>Worker := Some (FMQTTWorker_Disconnect GameThread bForce w)\<rparr>)\<rparr>))"

definition UMQTTClient_Publish ::
  "FString \<Rightarrow> FString \<Rightarrow> int32 \<Rightarrow> bool \<Rightarrow> UMQTTClient \<Rightarrow> bool \<times> UMQTTClient" where
  "UMQTTClient_Publish T P Q R c =
     (case Impl c of
        None \<Rightarrow> (False, c)
      | Some i \<Rightarrow>
          (case Worker i of
             None \<Rightarrow> (False, c)
           | Some w \<Rightarrow>
               (let (r, w') = FMQTTWorker_Publish T P Q R w
                in (r, c\<lparr>Impl := Some (i\<lparr>Worker := Some w'\<rparr>)\<rparr>))))"

definition UMQTTClient_Subscribe ::
  "FString \<Rightarrow> int32 \<Rightarrow> UMQTTClient \<Rightarrow> bool \<times> UMQTTClient" where
  "UMQTTClient_Subscribe F Q c =
     (case Impl c of
        None \<Rightarrow> (False, c)
      | Some i \<Rightarrow>
          (case Worker i of
             None \<Rightarrow> (False, c)
           | Some w \<Rightarrow>
               (let (r, w') = FMQTTWorker_Subscribe F Q w
                in (r, c\<lparr>Impl := Some (i\<lparr>Worker := Some w'\<rparr>)\<rparr>))))"

definition UMQTTClient_Unsubscribe :: "FString \<Rightarrow> UMQTTClient \<Rightarrow> bool \<times> UMQTTClient" where
  "UMQTTClient_Unsubscribe F c =
     (case Impl c of
        None \<Rightarrow> (False, c)
      | Some i \<Rightarrow>
          (case Worker i of
             None \<Rightarrow> (False, c)
           | Some w \<Rightarrow>
               (let (r, w') = FMQTTWorker_Unsubscribe F w
                in (r, c\<lparr>Impl := Some (i\<lparr>Worker := Some w'\<rparr>)\<rparr>))))"


text \<open>\<open>BeginDestroy\<close>: shut the worker down, delete it, reset \<open>Impl\<close>. The first
  argument is the outcome of the wait inside \<open>Shutdown\<close>.\<close>

definition UMQTTClient_BeginDestroy :: "bool \<Rightarrow> UMQTTClient \<Rightarrow> UMQTTClient" where
  "UMQTTClient_BeginDestroy left_run c =
     (case Impl c of
        None \<Rightarrow> c
      | Some i \<Rightarrow>
          (let i' = (case Worker i of
                       None \<Rightarrow> i
                     | Some w \<Rightarrow>
                         (let w' = FMQTTWorker_Shutdown left_run w in i\<lparr>Worker := None\<rparr>))
           in c\<lparr>Impl := None\<rparr>))"

text \<open>The worker a client holds, if any.\<close>

definition worker_of :: "UMQTTClient \<Rightarrow> FMQTTWorker option" where
  "worker_of c = (case Impl c of None \<Rightarrow> None | Some i \<Rightarrow> Worker i)"

section \<open>Closed forms of the two drain loops\<close>

lemma drain_outgoing_closed:
  "drain_outgoing t s =
     s\<lparr>OutgoingMessages := [],
       GameThreadTasks :=
         GameThreadTasks s @ (if Owner s then map echo_of (OutgoingMessages s) else []),
       NotifyCalls := NotifyCalls s @ map (\<lambda>m. (t, echo_of m)) (OutgoingMessages s)\<rparr>"
proof (induction "OutgoingMessages s" arbitrary: s)
  case Nil
  then have "OutgoingMessages s = []" by simp
  then show ?case by (subst drain_outgoing.simps) simp
next
  case (Cons m q)
  from Cons.hyps(2) have eq: "OutgoingMessages s = m # q" by simp
  let ?s' = "NotifyMessageReceived t (Topic m) (Payload m) (s\<lparr>OutgoingMessages := q\<rparr>)"
  have q: "q = OutgoingMessages ?s'"
    by (simp add: NotifyMessageReceived_def Let_def)
  have unroll: "drain_outgoing t s = drain_outgoing t ?s'"
    by (subst drain_outgoing.simps) (simp add: eq)
  show ?case
    unfolding unroll Cons.hyps(1) [OF q]
    by (simp add: eq NotifyMessageReceived_def Let_def echo_of_def)
qed

lemma drain_subscriptions_closed:
  "drain_subscriptions s = s\<lparr>SubscriptionRequests := []\<rparr>"
proof (induction "SubscriptionRequests s" arbitrary: s)
  case Nil
  then have "SubscriptionRequests s = []" by simp
  then show ?case by (subst drain_subscriptions.simps) simp
next
  case (Cons r q)
  from Cons.hyps(2) have eq: "SubscriptionRequests s = r # q" by simp
  have unroll: "drain_subscriptions s = drain_subscriptions (s\<lparr>SubscriptionRequests := q\<rparr>)"
    by (subst drain_subscriptions.simps) (simp add: eq)
  show ?case
    unfolding unroll using Cons.hyps(1) [of "s\<lparr>SubscriptionRequests := q\<rparr>"] by simp
qed

section \<open>One pass of the loop body, in closed form\<close>

lemma Run_iteration_closed:
  "Run_iteration t s =
     s\<lparr>WakeEvent := False,
       OutgoingMessages := [],
       SubscriptionRequests := [],
       bConnected := bConnected s \<or> Host s \<noteq> [],
       GameThreadTasks :=
         GameThreadTasks s @
           (if Owner s
            then (if \<not> bConnected s \<and> Host s \<noteq> [] then [Connected] else []) @
                 map echo_of (OutgoingMessages s)
            else []),
       NotifyCalls :=
         NotifyCalls s @
           (if \<not> bConnected s \<and> Host s \<noteq> [] then [(t, Connected)] else []) @
           map (\<lambda>m. (t, echo_of m)) (OutgoingMessages s)\<rparr>"
  by (simp add: Run_iteration_def drain_subscriptions_closed drain_outgoing_closed
      connect_pending_def wait_wake_def NotifyConnected_def Let_def)

lemma filter_Connected_echo_calls [simp]:
  "filter (\<lambda>c. snd c = Connected) (map (\<lambda>m. (t, echo_of m)) q) = []"
  by (induction q) (simp_all add: echo_of_def)

lemma filter_Connected_echo_tasks [simp]:
  "filter (\<lambda>n. n = Connected) (map echo_of q) = []"
  by (induction q) (simp_all add: echo_of_def)

section \<open>Runs of events\<close>

lemma run_events_append: "run_events (es @ fs) s = run_events fs (run_events es s)"
  by (induction es arbitrary: s) simp_all

lemma step_publish_event:
  "step (publish_event m) s =
     s\<lparr>OutgoingMessages := OutgoingMessages s @ [m], WakeEvent := True\<rparr>"
  by (simp add: publish_event_def FMQTTWorker_Publish_def WakeWorker_def Enqueue_def)

lemma run_events_publishes:
  "ms \<noteq> [] \<Longrightarrow> run_events (map publish_event ms) s =
     s\<lparr>OutgoingMessages := OutgoingMessages s @ ms, WakeEvent := True\<rparr>"
proof (induction ms arbitrary: s)
  case Nil
  then show ?case by simp
next
  case (Cons m ms)
  show ?case
  proof (cases "ms = []")
    case True
    then show ?thesis by (simp add: step_publish_event)
  next
    case False
    from Cons.IH [OF False] show ?thesis by (simp add: step_publish_event)
  qed
qed

lemma OutgoingMessages_publishes:
  "OutgoingMessages (run_events (map publish_event ms) s) = OutgoingMessages s @ ms"
  by (cases "ms = []") (simp_all add: run_events_publishes)

lemma publishes_frame:
  "NotifyCalls (run_events (map publish_event ms) s) = NotifyCalls s"
  "GameThreadTasks (run_events (map publish_event ms) s) = GameThreadTasks s"
  "bConnected (run_events (map publish_event ms) s) = bConnected s"
  "Host (run_events (map publish_event ms) s) = Host s"
  "Owner (run_events (map publish_event ms) s) = Owner s"
  by (cases "ms = []"; simp add: run_events_publishes)+

lemmas worker_defs =
  FMQTTWorker_new_def FMQTTWorker_Connect_def FMQTTWorker_Disconnect_def
  FMQTTWorker_Publish_def FMQTTWorker_Subscribe_def FMQTTWorker_Unsubscribe_def
  FMQTTWorker_SetClientId_def FMQTTWorker_SetCredentials_def FMQTTWorker_SetKeepAlive_def
  FMQTTWorker_Stop_def FMQTTWorker_IsConnected_def
  WakeWorker_def Enqueue_def NotifyDisconnected_def Run_turn_def Run_iteration_closed

section \<open>Invariants of runs\<close>

lemma counts_Disconnect:
  "connected_fired (FMQTTWorker_Disconnect t bForce s) = connected_fired s"
  "connected_posted (FMQTTWorker_Disconnect t bForce s) = connected_posted s"
  "\<not> bConnected (FMQTTWorker_Disconnect t bForce s)"
  "Host (FMQTTWorker_Disconnect t bForce s) = []"
  by (simp_all add: FMQTTWorker_Disconnect_def NotifyDisconnected_def WakeWorker_def Let_def
      connected_fired_def connected_posted_def)

text \<open>A step other than \<open>Disconnect\<close> keeps a connected worker connected and silent, and
  connects a disconnected one at most once.\<close>

lemma step_without_Disconnect:
  assumes "\<not> is_Disconnect e"
  shows "(bConnected s \<longrightarrow> bConnected (step e s))
       \<and> connected_fired (step e s) =
           connected_fired s + (if \<not> bConnected s \<and> bConnected (step e s) then 1 else 0)
       \<and> connected_posted (step e s) \<le>
           connected_posted s + (if \<not> bConnected s \<and> bConnected (step e s) then 1 else 0)
       \<and> connected_posted s \<le> connected_posted (step e s)"
  using assms
  by (cases e)
     (auto simp: worker_defs connected_fired_def connected_posted_def)


lemma run_without_Disconnect:
  assumes "\<forall>e \<in> set es. \<not> is_Disconnect e"
  shows "(bConnected s \<longrightarrow> bConnected (run_events es s))
       \<and> connected_fired (run_events es s) =
           connected_fired s + (if \<not> bConnected s \<and> bConnected (run_events es s) then 1 else 0)
       \<and> connected_posted (run_events es s) \<le>
           connected_posted s + (if \<not> bConnected s \<and> bConnected (run_events es s) then 1 else 0)
       \<and> connected_posted s \<le> connected_posted (run_events es s)"
  using assms
proof (induction es arbitrary: s)
  case Nil
  then show ?case by simp
next
  case (Cons e es)
  from Cons.prems have e: "\<not> is_Disconnect e" and es: "\<forall>e \<in> set es. \<not> is_Disconnect e"
    by simp_all
  note first = step_without_Disconnect [OF e, of s]
  note rest = Cons.IH [OF es, of "step e s"]
  show ?case
  proof (cases "bConnected s")
    case True
    with first rest show ?thesis by simp
  next
    case False
    show ?thesis
    proof (cases "bConnected (step e s)")
      case True
      with False first rest show ?thesis by simp
    next
      case False
      with \<open>\<not> bConnected s\<close> first rest show ?thesis by simp
    qed
  qed
qed

section \<open>Executions with owner calls inside a pass\<close>

lemma connect_pending_split:
  "connect_pending t s = (if connect_guard s then establish t s else s)"
  by (simp add: connect_pending_def connect_guard_def establish_def)

lemma uninterrupted_pass:
  "\<not> bStopRequested s \<Longrightarrow>
     interleaved_run [Worker_Turn, Worker_Turn, Worker_Turn, Worker_Turn] (At_Head, s) =
       (At_Head, Run_turn s)"
  "bStopRequested s \<Longrightarrow> interleaved_run [Worker_Turn] (At_Head, s) = (Exited, Run_turn s)"
  by (simp_all add: Run_turn_def Run_iteration_def connect_pending_split Let_def wait_wake_def)

lemma stop_during_wait:
  "\<not> bStopRequested s \<Longrightarrow>
     interleaved_run [Worker_Turn, Call_Stop, Worker_Turn, Worker_Turn, Worker_Turn, Worker_Turn]
       (At_Head, s) =
       (Exited, (Run_iteration WorkerThread (FMQTTWorker_Stop s))\<lparr>bShutdownComplete := True\<rparr>)"
  by (simp add: Run_iteration_def connect_pending_split Let_def wait_wake_def
      FMQTTWorker_Stop_def drain_subscriptions_closed drain_outgoing_closed establish_def
      NotifyConnected_def connect_guard_def)

lemmas section_defs =
  connect_guard_def establish_def wait_wake_def NotifyConnected_def
  drain_subscriptions_closed drain_outgoing_closed

lemma interleaved_step_without_Disconnect:
  assumes "\<not> is_Disconnect e" and "guard_fresh (p, s)"
  shows "guard_fresh (interleaved_step e (p, s))
       \<and> connected_fired (snd (interleaved_step e (p, s))) + pending (interleaved_step e (p, s))
           \<le> connected_fired s + pending (p, s)
       \<and> connected_posted (snd (interleaved_step e (p, s))) + pending (interleaved_step e (p, s))
           \<le> connected_posted s + pending (p, s)
       \<and> (bConnected s \<longrightarrow> bConnected (snd (interleaved_step e (p, s))))"
proof (cases e)
  case Worker_Turn
  with assms show ?thesis
    by (cases p)
       (auto simp: guard_fresh_def pending_def section_defs Let_def connected_fired_def
          connected_posted_def)
next
  case (Call_Disconnect b)
  with assms show ?thesis by simp
qed (use assms in \<open>auto simp: guard_fresh_def pending_def worker_defs connected_fired_def
          connected_posted_def\<close>)


lemma interleaved_run_without_Disconnect:
  assumes "\<forall>e \<in> set es. \<not> is_Disconnect e" and "guard_fresh ps"
  shows "connected_fired (snd (interleaved_run es ps)) + pending (interleaved_run es ps)
           \<le> connected_fired (snd ps) + pending ps
       \<and> connected_posted (snd (interleaved_run es ps)) + pending (interleaved_run es ps)
           \<le> connected_posted (snd ps) + pending ps
       \<and> (bConnected (snd ps) \<longrightarrow> bConnected (snd (interleaved_run es ps)))"
  using assms
proof (induction es arbitrary: ps)
  case Nil
  then show ?case by simp
next
  case (Cons e es)
  obtain p s where ps: "ps = (p, s)" by (cases ps)
  from Cons.prems have e: "\<not> is_Disconnect e" and es: "\<forall>e \<in> set es. \<not> is_Disconnect e"
    by simp_all
  from Cons.prems(2) ps have fresh: "guard_fresh (p, s)" by simp
  note first = interleaved_step_without_Disconnect [OF e fresh]
  from first have "guard_fresh (interleaved_step e (p, s))" by simp
  note rest = Cons.IH [OF es this]
  from first rest show ?case
    unfolding ps by (simp del: interleaved_step.simps)
qed

text \<open>A guard tested with no host recorded does not hold, and the pass then leaves the
  connection flag and both histories of \<open>Connected\<close> alone.\<close>

lemma pass_with_empty_host:
  assumes "Host s = []"
  shows "interleaved_run [Worker_Turn] (At_Wait, s) = (Past_Guard False, wait_wake s)"
    and "Run_section (Past_Guard False, s') = (At_Drain, s')"
  using assms by (simp_all add: connect_guard_def wait_wake_def Let_def)

text \<open>With no host recorded, no connection, and the worker not standing past a guard
  that held, an event that records no host keeps all three.\<close>

lemma interleaved_step_without_host:
  assumes "Host s = []" and "\<not> bConnected s" and "p \<noteq> Past_Guard True"
    and "\<not> records_host e"
  shows "Host (snd (interleaved_step e (p, s))) = []
       \<and> \<not> bConnected (snd (interleaved_step e (p, s)))
       \<and> fst (interleaved_step e (p, s)) \<noteq> Past_Guard True
       \<and> connected_fired (snd (interleaved_step e (p, s))) = connected_fired s
       \<and> connected_posted (snd (interleaved_step e (p, s))) = connected_posted s"
proof (cases e)
  case Worker_Turn
  with assms show ?thesis
    by (cases p)
       (auto simp: section_defs Let_def connected_fired_def connected_posted_def)
qed (use assms in \<open>auto simp: worker_defs connected_fired_def connected_posted_def\<close>)

lemma interleaved_run_without_host:
  assumes "Host (snd ps) = []" and "\<not> bConnected (snd ps)" and "fst ps \<noteq> Past_Guard True"
    and "\<forall>e \<in> set es. \<not> records_host e"
  shows "Host (snd (interleaved_run es ps)) = []
       \<and> \<not> bConnected (snd (interleaved_run es ps))
       \<and> connected_fired (snd (interleaved_run es ps)) = connected_fired (snd ps)
       \<and> connected_posted (snd (interleaved_run es ps)) = connected_posted (snd ps)"
  using assms
proof (induction es arbitrary: ps)
  case Nil
  then show ?case by simp
next
  case (Cons e es)
  obtain p s where ps: "ps = (p, s)" by (cases ps)
  from Cons.prems ps have s: "Host s = []" "\<not> bConnected s" "p \<noteq> Past_Guard True"
    and e: "\<not> records_host e" and es: "\<forall>e \<in> set es. \<not> records_host e"
    by simp_all
  note first = interleaved_step_without_host [OF s e]
  from first have "Host (snd (interleaved_step e (p, s))) = []"
    and "\<not> bConnected (snd (interleaved_step e (p, s)))"
    and "fst (interleaved_step e (p, s)) \<noteq> Past_Guard True"
    by simp_all
  from Cons.IH [OF this es] first show ?case
    unfolding ps by (simp del: interleaved_step.simps)
qed

text \<open>In such executions too, repeated \<open>Connect\<close> calls with no \<open>Disconnect\<close> fire at
  most one \<open>Connected\<close>, and the flag of \<open>Disconnect\<close> changes nothing.\<close>

lemma interleaved_Connect_fires_at_most_one_Connected:
  assumes "\<forall>e \<in> set es. \<not> is_Disconnect e"
  shows "connected_fired (snd (interleaved_run es (At_Head, s)))
           \<le> connected_fired s + (if bConnected s then 0 else 1)
       \<and> connected_posted (snd (interleaved_run es (At_Head, s)))
           \<le> connected_posted s + (if bConnected s then 0 else 1)
       \<and> (bConnected s \<longrightarrow> bConnected (snd (interleaved_run es (At_Head, s))))"
proof -
  have "guard_fresh (At_Head, s)"
    by (simp add: guard_fresh_def)
  from interleaved_run_without_Disconnect [OF assms this] show ?thesis
    by (simp add: pending_def split: if_splits)
qed

lemma interleaved_Disconnect_ignores_bForce:
  "interleaved_run (Call_Disconnect True # es) ps = interleaved_run (Call_Disconnect False # es) ps"
  by (cases ps) (simp add: FMQTTWorker_Disconnect_def)

text \<open>A \<open>Disconnect\<close> taken while the worker does not stand past a guard that held is
  final: the worker stays disconnected until a \<open>Connect\<close> records a host.\<close>

lemma Disconnect_outside_guard_stays_disconnected:
  assumes "p \<noteq> Past_Guard True" and "\<forall>e \<in> set es. \<not> records_host e"
  shows "\<not> bConnected (snd (interleaved_run es (p, FMQTTWorker_Disconnect t bForce s)))
       \<and> Host (snd (interleaved_run es (p, FMQTTWorker_Disconnect t bForce s))) = []
       \<and> connected_fired (snd (interleaved_run es (p, FMQTTWorker_Disconnect t bForce s)))
           = connected_fired s
       \<and> connected_posted (snd (interleaved_run es (p, FMQTTWorker_Disconnect t bForce s)))
           = connected_posted s"
  using interleaved_run_without_host
          [of "(p, FMQTTWorker_Disconnect t bForce s)" es] assms
  by (simp add: counts_Disconnect)

section \<open>A client after its first \<open>Connect\<close>\<close>

lemma worker_of_Connect_new:
  "UMQTTClient_Connect True B P S UMQTTClient_new =
     Inr (True, UMQTTClient_new
       \<lparr>Impl := Some \<lparr>Worker = Some ((FMQTTWorker_new True)
           \<lparr>Thread := True, Host := B, Port := P, bUseTLS := S, WakeEvent := True\<rparr>)\<rparr>,
         Broker := B, U_Port := P, U_bUseTLS := S\<rparr>)"
  by (simp add: UMQTTClient_Connect_def UMQTTClient_new_def FMQTTWorker_Start_def
      FMQTTWorker_new_def FMQTTWorker_SetClientId_def FMQTTWorker_SetCredentials_def
      FMQTTWorker_SetKeepAlive_def FMQTTWorker_Connect_def WakeWorker_def Let_def)

section \<open>Properties from the specification\<close>

text \<open>
  C1. On a pass of the worker loop that starts not connected with a non-empty recorded
  host, the worker ends connected and \<open>NotifyConnected\<close> is invoked exactly once in that
  pass; one \<open>OnConnected\<close> broadcast is posted when the owner still resolves (none when it
  does not, the helper dropping it). The pass that follows invokes it no more. The
  simulated attempt has no failing outcome: such a pass never ends disconnected, so
  there is no failure after which a retry could happen.
\<close>

theorem establishment_fires_one_Connected:
  assumes "\<not> bConnected s" and "Host s \<noteq> []"
  shows "bConnected (Run_iteration t s)
       \<and> filter (\<lambda>c. snd c = Connected) (fired_since s (Run_iteration t s)) = [(t, Connected)]
       \<and> filter (\<lambda>n. n = Connected) (posted_since s (Run_iteration t s)) =
           (if Owner s then [Connected] else [])
       \<and> filter (\<lambda>c. snd c = Connected)
           (fired_since (Run_iteration t s) (Run_iteration t (Run_iteration t s))) = []"
proof -
  let ?s' = "Run_iteration t s"
  have conn: "bConnected ?s'"
    using assms by (simp add: Run_iteration_closed)
  have fired: "fired_since s ?s' = (t, Connected) # map (\<lambda>m. (t, echo_of m)) (OutgoingMessages s)"
    using assms by (simp add: Run_iteration_closed fired_since_def)
  have posted: "posted_since s ?s' =
      (if Owner s then Connected # map echo_of (OutgoingMessages s) else [])"
    using assms by (simp add: Run_iteration_closed posted_since_def)
  have empty: "OutgoingMessages ?s' = []"
    by (simp add: Run_iteration_closed)
  have again: "fired_since ?s' (Run_iteration t ?s') = []"
    using conn empty by (simp add: Run_iteration_closed [of t ?s'] fired_since_def)
  show ?thesis
    using conn by (simp add: fired posted again)
qed

theorem establishment_fires_one_Connected_witness:
  "\<not> bConnected (snd (FMQTTWorker_Connect ''127.0.0.1'' 1883 False (FMQTTWorker_new True)))
   \<and> Host (snd (FMQTTWorker_Connect ''127.0.0.1'' 1883 False (FMQTTWorker_new True))) \<noteq> []
   \<and> bConnected (Run_iteration WorkerThread
        (snd (FMQTTWorker_Connect ''127.0.0.1'' 1883 False (FMQTTWorker_new True))))
   \<and> GameThreadTasks (Run_iteration WorkerThread
        (snd (FMQTTWorker_Connect ''127.0.0.1'' 1883 False (FMQTTWorker_new True)))) = [Connected]"
proof -
  let ?s = "snd (FMQTTWorker_Connect ''127.0.0.1'' 1883 False (FMQTTWorker_new True))"
  have h1: "\<not> bConnected ?s" and h2: "Host ?s \<noteq> []"
    and own: "Owner ?s" and tasks: "GameThreadTasks ?s = []"
    by (simp_all add: FMQTTWorker_Connect_def FMQTTWorker_new_def WakeWorker_def)
  from establishment_fires_one_Connected [OF h1 h2, of WorkerThread]
  show ?thesis
    by (simp add: own tasks posted_since_def Run_iteration_closed FMQTTWorker_Connect_def
        FMQTTWorker_new_def WakeWorker_def)
qed

text \<open>
  C2. Whatever sequence of \<open>Publish\<close> calls the owner makes before the worker's next
  pass, the queue holds them behind its earlier content in the order of the calls, and
  the pass invokes \<open>NotifyMessageReceived\<close> for exactly these messages in exactly that
  order (after the one \<open>NotifyConnected\<close> of a pass that connects), posts the broadcasts
  in the same order when the owner resolves, and leaves the queue empty.
\<close>

theorem publishes_echoed_in_submission_order:
  "OutgoingMessages (run_events (map publish_event ms) s) = OutgoingMessages s @ ms
   \<and> fired_since s (Run_iteration t (run_events (map publish_event ms) s)) =
       (if \<not> bConnected s \<and> Host s \<noteq> [] then [(t, Connected)] else []) @
       map (\<lambda>m. (t, MessageReceived (Topic m) (Payload m))) (OutgoingMessages s @ ms)
   \<and> posted_since s (Run_iteration t (run_events (map publish_event ms) s)) =
       (if Owner s
        then (if \<not> bConnected s \<and> Host s \<noteq> [] then [Connected] else []) @
             map (\<lambda>m. MessageReceived (Topic m) (Payload m)) (OutgoingMessages s @ ms)
        else [])
   \<and> OutgoingMessages (Run_iteration t (run_events (map publish_event ms) s)) = []"
  by (simp add: Run_iteration_closed OutgoingMessages_publishes publishes_frame
      fired_since_def posted_since_def echo_of_def)

theorem publishes_echoed_in_submission_order_witness:
  "posted_since
     (run_events [Call_Connect ''127.0.0.1'' 1883 False, Worker_Turn] (FMQTTWorker_new True))
     (Run_iteration WorkerThread
        (run_events
           (map publish_event
              [\<lparr>Topic = ''a'', Payload = ''1'', QoS = 0, bRetain = False\<rparr>,
               \<lparr>Topic = ''b'', Payload = ''2'', QoS = 1, bRetain = True\<rparr>,
               \<lparr>Topic = ''a'', Payload = ''3'', QoS = 2, bRetain = False\<rparr>])
           (run_events [Call_Connect ''127.0.0.1'' 1883 False, Worker_Turn] (FMQTTWorker_new True))))
   = [MessageReceived ''a'' ''1'', MessageReceived ''b'' ''2'', MessageReceived ''a'' ''3'']"
proof -
  let ?s = "run_events [Call_Connect ''127.0.0.1'' 1883 False, Worker_Turn] (FMQTTWorker_new True)"
  from publishes_echoed_in_submission_order [of
      "[\<lparr>Topic = ''a'', Payload = ''1'', QoS = 0, bRetain = False\<rparr>,
        \<lparr>Topic = ''b'', Payload = ''2'', QoS = 1, bRetain = True\<rparr>,
        \<lparr>Topic = ''a'', Payload = ''3'', QoS = 2, bRetain = False\<rparr>]" ?s WorkerThread]
  show ?thesis
    by (simp add: worker_defs publish_event_def posted_since_def fired_since_def echo_of_def)
qed

text \<open>
  C3. In every run of owner calls and worker turns that contains no \<open>Disconnect\<close>,
  \<open>NotifyConnected\<close> is invoked at most once, and not at all when the run starts
  connected; the same bound holds for the posted \<open>OnConnected\<close> broadcasts. A worker
  that is connected stays so, and a \<open>Connect\<close> call changes nothing but the recorded
  target (host, port, TLS flag) and the wake event, whatever the connection state.
\<close>

theorem repeated_Connect_fires_at_most_one_Connected:
  assumes "\<forall>e \<in> set es. \<not> is_Disconnect e"
  shows "connected_fired (run_events es s) \<le> connected_fired s + (if bConnected s then 0 else 1)
       \<and> connected_posted (run_events es s) \<le> connected_posted s + (if bConnected s then 0 else 1)
       \<and> (bConnected s \<longrightarrow> bConnected (run_events es s))
       \<and> step (Call_Connect InHost InPort bInUseTLS) s =
           s\<lparr>Host := InHost, Port := InPort, bUseTLS := bInUseTLS, WakeEvent := True\<rparr>"
proof -
  note run = run_without_Disconnect [OF assms, of s]
  have target: "step (Call_Connect InHost InPort bInUseTLS) s =
           s\<lparr>Host := InHost, Port := InPort, bUseTLS := bInUseTLS, WakeEvent := True\<rparr>"
    by (simp add: FMQTTWorker_Connect_def WakeWorker_def)
  from run target show ?thesis
    by (simp split: if_splits)
qed

theorem repeated_Connect_fires_at_most_one_Connected_witness:
  "\<not> list_ex is_Disconnect
        [Call_Connect ''10.0.0.1'' 1883 False, Call_Connect ''10.0.0.2'' 8883 True,
         Worker_Turn, Call_Connect ''10.0.0.3'' 1883 False, Worker_Turn, Worker_Turn]
   \<and> GameThreadTasks (run_events
        [Call_Connect ''10.0.0.1'' 1883 False, Call_Connect ''10.0.0.2'' 8883 True,
         Worker_Turn, Call_Connect ''10.0.0.3'' 1883 False, Worker_Turn, Worker_Turn]
        (FMQTTWorker_new True)) = [Connected]
   \<and> connected_fired (run_events
        [Call_Connect ''10.0.0.1'' 1883 False, Call_Connect ''10.0.0.2'' 8883 True,
         Worker_Turn, Call_Connect ''10.0.0.3'' 1883 False, Worker_Turn, Worker_Turn]
        (FMQTTWorker_new True)) \<le> 1"
proof -
  have h: "\<forall>e \<in> set [Call_Connect ''10.0.0.1'' 1883 False, Call_Connect ''10.0.0.2'' 8883 True,
                Worker_Turn, Call_Connect ''10.0.0.3'' 1883 False, Worker_Turn, Worker_Turn].
       \<not> is_Disconnect e"
    by simp
  have tasks: "GameThreadTasks (run_events
        [Call_Connect ''10.0.0.1'' 1883 False, Call_Connect ''10.0.0.2'' 8883 True,
         Worker_Turn, Call_Connect ''10.0.0.3'' 1883 False, Worker_Turn, Worker_Turn]
        (FMQTTWorker_new True)) = [Connected]"
    by (simp add: worker_defs)
  have zero: "connected_fired (FMQTTWorker_new True) = 0" "\<not> bConnected (FMQTTWorker_new True)"
    by (simp_all add: connected_fired_def FMQTTWorker_new_def)
  from repeated_Connect_fires_at_most_one_Connected [OF h, of "FMQTTWorker_new True"]
  have "connected_fired (run_events
        [Call_Connect ''10.0.0.1'' 1883 False, Call_Connect ''10.0.0.2'' 8883 True,
         Worker_Turn, Call_Connect ''10.0.0.3'' 1883 False, Worker_Turn, Worker_Turn]
        (FMQTTWorker_new True)) \<le> 1"
    by (simp only: zero if_False add_0) 
  with tasks show ?thesis by simp
qed

text \<open>
  C4, as the code has it. Every outgoing message the worker loop drains is looped back
  as a received message with the same topic and payload, whether or not the worker is
  connected when it drains: the drain loop never reads \<open>bConnected\<close> and leaves it as it
  was.
\<close>

theorem drained_messages_echoed_regardless_of_connection:
  "fired_since s (drain_outgoing t s) =
     map (\<lambda>m. (t, MessageReceived (Topic m) (Payload m))) (OutgoingMessages s)
   \<and> posted_since s (drain_outgoing t s) =
       (if Owner s then map (\<lambda>m. MessageReceived (Topic m) (Payload m)) (OutgoingMessages s)
        else [])
   \<and> bConnected (drain_outgoing t s) = bConnected s
   \<and> OutgoingMessages (drain_outgoing t s) = []"
  by (simp add: drain_outgoing_closed fired_since_def posted_since_def echo_of_def)

theorem drained_messages_echoed_regardless_of_connection_witness:
  "\<not> bConnected (drain_outgoing WorkerThread
       (step (Call_Publish ''sensors/temp'' ''21.5'' 0 False) (FMQTTWorker_new True)))
   \<and> fired_since (step (Call_Publish ''sensors/temp'' ''21.5'' 0 False) (FMQTTWorker_new True))
       (drain_outgoing WorkerThread
          (step (Call_Publish ''sensors/temp'' ''21.5'' 0 False) (FMQTTWorker_new True)))
      = [(WorkerThread, MessageReceived ''sensors/temp'' ''21.5'')]"
  using drained_messages_echoed_regardless_of_connection
    [of "step (Call_Publish ''sensors/temp'' ''21.5'' 0 False) (FMQTTWorker_new True)" WorkerThread]
  by (simp add: worker_defs)

text \<open>
  C4, as stated, fails: after \<open>Connect\<close>, a pass of the worker, \<open>Disconnect\<close> and a
  \<open>Publish\<close>, the worker is not connected before the next pass nor after it, and that
  pass still posts the echo of the published message.
\<close>

theorem echo_while_disconnected_counterexample:
  "\<not> bConnected (run_events
        [Call_Connect ''127.0.0.1'' 1883 False, Worker_Turn, Call_Disconnect False,
         Call_Publish ''sensors/temp'' ''21.5'' 0 False] (FMQTTWorker_new True))
   \<and> \<not> bConnected (run_events
        [Call_Connect ''127.0.0.1'' 1883 False, Worker_Turn, Call_Disconnect False,
         Call_Publish ''sensors/temp'' ''21.5'' 0 False, Worker_Turn] (FMQTTWorker_new True))
   \<and> GameThreadTasks (run_events
        [Call_Connect ''127.0.0.1'' 1883 False, Worker_Turn, Call_Disconnect False,
         Call_Publish ''sensors/temp'' ''21.5'' 0 False, Worker_Turn] (FMQTTWorker_new True))
      = [Connected, Disconnected ''Client requested disconnect'',
         MessageReceived ''sensors/temp'' ''21.5'']"
  by (simp add: worker_defs Let_def echo_of_def)



text \<open>
  C6 fails on the code. \<open>Disconnect\<close> clears the host under the mutex, with the comment
  that the worker will then not attempt to reconnect, but \<open>Run\<close> takes no lock between
  its test of line 334 and the assignment of line 346. After \<open>Connect\<close>, once the worker
  has passed that test, a \<open>Disconnect\<close> returns with the host empty and the worker
  disconnected; the worker then completes its pass: it is connected, the host is empty,
  no \<open>Connect\<close> has followed, and \<open>OnConnected\<close> has been posted.
\<close>

theorem Disconnect_inside_pass_leaves_worker_connected:
  "interleaved_run
     [Call_Connect ''127.0.0.1'' 1883 False, Worker_Turn, Worker_Turn, Call_Disconnect False]
     (At_Head, FMQTTWorker_new True)
   = (Past_Guard True,
      (FMQTTWorker_new True)\<lparr>Host := [], Port := 1883, bUseTLS := False, WakeEvent := True\<rparr>)
   \<and> fst (interleaved_run
       [Call_Connect ''127.0.0.1'' 1883 False, Worker_Turn, Worker_Turn, Call_Disconnect False,
        Worker_Turn, Worker_Turn]
       (At_Head, FMQTTWorker_new True)) = At_Head
   \<and> bConnected (snd (interleaved_run
       [Call_Connect ''127.0.0.1'' 1883 False, Worker_Turn, Worker_Turn, Call_Disconnect False,
        Worker_Turn, Worker_Turn]
       (At_Head, FMQTTWorker_new True)))
   \<and> Host (snd (interleaved_run
       [Call_Connect ''127.0.0.1'' 1883 False, Worker_Turn, Worker_Turn, Call_Disconnect False,
        Worker_Turn, Worker_Turn]
       (At_Head, FMQTTWorker_new True))) = []
   \<and> NotifyCalls (snd (interleaved_run
       [Call_Connect ''127.0.0.1'' 1883 False, Worker_Turn, Worker_Turn, Call_Disconnect False,
        Worker_Turn, Worker_Turn]
       (At_Head, FMQTTWorker_new True))) = [(WorkerThread, Connected)]
   \<and> GameThreadTasks (snd (interleaved_run
       [Call_Connect ''127.0.0.1'' 1883 False, Worker_Turn, Worker_Turn, Call_Disconnect False,
        Worker_Turn, Worker_Turn]
       (At_Head, FMQTTWorker_new True))) = [Connected]"
  by (simp add: worker_defs section_defs Let_def)

text \<open>
  C7 fails on the code. The header says of the three \<open>Notify...\<close> helpers that they
  must only be called from the worker thread, yet \<open>Disconnect\<close>, which the owner calls
  on the game thread, calls \<open>NotifyDisconnected\<close> itself: after \<open>Connect\<close>, one turn of
  the worker and \<open>Disconnect\<close>, the second invocation in the history was made by the
  game thread.
\<close>

theorem Disconnect_notifies_on_game_thread:
  "NotifyCalls (run_events
       [Call_Connect ''127.0.0.1'' 1883 False, Worker_Turn, Call_Disconnect False]
       (FMQTTWorker_new True))
   = [(WorkerThread, Connected), (GameThread, Disconnected ''Client requested disconnect'')]"
  by (simp add: worker_defs Let_def)

text \<open>
  C8. On a client that holds no worker, \<open>Publish\<close>, \<open>Subscribe\<close> and \<open>Unsubscribe\<close>
  return false and leave the client as it is; both pointers are tested before use, so
  no null pointer is dereferenced. A newly constructed client holds no worker, and
  neither does any client after \<open>BeginDestroy\<close>, however the wait for the worker ends.
\<close>

theorem calls_without_worker_return_false:
  "(worker_of c = None \<longrightarrow>
      UMQTTClient_Publish T P Q R c = (False, c)
      \<and> UMQTTClient_Subscribe F Q c = (False, c)
      \<and> UMQTTClient_Unsubscribe F c = (False, c))
   \<and> worker_of UMQTTClient_new = None
   \<and> worker_of (UMQTTClient_BeginDestroy left_run c) = None"
proof -
  have none: "worker_of c = None \<Longrightarrow>
      UMQTTClient_Publish T P Q R c = (False, c)
      \<and> UMQTTClient_Subscribe F Q c = (False, c)
      \<and> UMQTTClient_Unsubscribe F c = (False, c)"
    by (simp add: worker_of_def UMQTTClient_Publish_def UMQTTClient_Subscribe_def
        UMQTTClient_Unsubscribe_def split: option.splits)
  have fresh: "worker_of UMQTTClient_new = None"
    by (simp add: worker_of_def UMQTTClient_new_def)
  have destroyed: "worker_of (UMQTTClient_BeginDestroy left_run c) = None"
    by (simp add: worker_of_def UMQTTClient_BeginDestroy_def Let_def split: option.splits)
  from none fresh destroyed show ?thesis by blast
qed

theorem calls_without_worker_return_false_witness:
  "UMQTTClient_Publish ''sensors/temp'' ''21.5'' 0 False UMQTTClient_new = (False, UMQTTClient_new)
   \<and> UMQTTClient_Subscribe ''sensors/#'' 1 UMQTTClient_new = (False, UMQTTClient_new)
   \<and> UMQTTClient_Unsubscribe ''sensors/#'' UMQTTClient_new = (False, UMQTTClient_new)
   \<and> (case UMQTTClient_Connect True ''127.0.0.1'' 1883 False UMQTTClient_new of
         Inl f \<Rightarrow> False
       | Inr (ok, c) \<Rightarrow>
           worker_of c \<noteq> None
           \<and> fst (UMQTTClient_Publish ''sensors/temp'' ''21.5'' 0 False (UMQTTClient_BeginDestroy True c))
               = False)"
proof -
  obtain c where c: "UMQTTClient_Connect True ''127.0.0.1'' 1883 False UMQTTClient_new = Inr (True, c)"
    and w: "worker_of c \<noteq> None"
    by (simp add: worker_of_Connect_new worker_of_def)
  have gone: "worker_of (UMQTTClient_BeginDestroy True c) = None"
    using calls_without_worker_return_false [of c] by simp
  from calls_without_worker_return_false
         [of UMQTTClient_new "''sensors/temp''" "''21.5''" 0 False "''sensors/#''"]
       calls_without_worker_return_false
         [of UMQTTClient_new "''sensors/temp''" "''21.5''" 1 False "''sensors/#''"]
       calls_without_worker_return_false
         [of "UMQTTClient_BeginDestroy True c" "''sensors/temp''" "''21.5''" 0 False "''sensors/#''"]
  show ?thesis
    using w by (simp add: c gone)
qed

text \<open>
  C9. \<open>Disconnect(true)\<close> and \<open>Disconnect(false)\<close> return the same state, for the
  worker and for the client, and so every run of events that follows either of them
  ends in the same state: \<open>bForce\<close> is never read.
\<close>

theorem Disconnect_ignores_bForce:
  "FMQTTWorker_Disconnect t True s = FMQTTWorker_Disconnect t False s
   \<and> UMQTTClient_Disconnect True c = UMQTTClient_Disconnect False c
   \<and> run_events (Call_Disconnect True # es) s = run_events (Call_Disconnect False # es) s"
proof -
  have worker: "FMQTTWorker_Disconnect t' True s' = FMQTTWorker_Disconnect t' False s'" for t' s'
    by (simp add: FMQTTWorker_Disconnect_def)
  have client: "UMQTTClient_Disconnect True c = UMQTTClient_Disconnect False c"
    by (simp add: UMQTTClient_Disconnect_def worker split: option.splits)
  have run: "run_events (Call_Disconnect True # es) s = run_events (Call_Disconnect False # es) s"
    by (simp add: worker)
  from worker client run show ?thesis by simp
qed

theorem Disconnect_ignores_bForce_witness:
  "FMQTTWorker_Disconnect GameThread True
     (run_events [Call_Connect ''127.0.0.1'' 1883 False, Worker_Turn] (FMQTTWorker_new True))
   = FMQTTWorker_Disconnect GameThread False
     (run_events [Call_Connect ''127.0.0.1'' 1883 False, Worker_Turn] (FMQTTWorker_new True))
   \<and> GameThreadTasks (FMQTTWorker_Disconnect GameThread True
     (run_events [Call_Connect ''127.0.0.1'' 1883 False, Worker_Turn] (FMQTTWorker_new True)))
   = [Connected, Disconnected ''Client requested disconnect'']"
  using Disconnect_ignores_bForce
    [of GameThread
        "run_events [Call_Connect ''127.0.0.1'' 1883 False, Worker_Turn] (FMQTTWorker_new True)"
        UMQTTClient_new "[]"]
  by (simp add: worker_defs Let_def)

text \<open>
  C10. For every 32-bit \<open>QoS\<close> value, \<open>Publish\<close> returns true and appends to the
  outgoing queue a request holding exactly the given topic, payload, \<open>QoS\<close> and retain
  flag, and \<open>Subscribe\<close> returns true and appends a request holding exactly the given
  filter and \<open>QoS\<close>; a client that holds a worker passes the call on and returns true.
\<close>

theorem Publish_Subscribe_store_QoS_unchanged:
  "FMQTTWorker_Publish T P Q R s =
     (True, s\<lparr>OutgoingMessages :=
                OutgoingMessages s @ [\<lparr>Topic = T, Payload = P, QoS = Q, bRetain = R\<rparr>],
              WakeEvent := True\<rparr>)
   \<and> FMQTTWorker_Subscribe F Q s =
     (True, s\<lparr>SubscriptionRequests :=
                SubscriptionRequests s @ [\<lparr>TopicFilter = F, SubQoS = Q, bSubscribe = True\<rparr>],
              WakeEvent := True\<rparr>)
   \<and> (worker_of c = Some w \<longrightarrow>
        fst (UMQTTClient_Publish T P Q R c)
        \<and> worker_of (snd (UMQTTClient_Publish T P Q R c)) = Some (snd (FMQTTWorker_Publish T P Q R w))
        \<and> fst (UMQTTClient_Subscribe F Q c)
        \<and> worker_of (snd (UMQTTClient_Subscribe F Q c)) = Some (snd (FMQTTWorker_Subscribe F Q w)))"
proof -
  have pub: "FMQTTWorker_Publish T P Q R s' =
     (True, s'\<lparr>OutgoingMessages :=
                OutgoingMessages s' @ [\<lparr>Topic = T, Payload = P, QoS = Q, bRetain = R\<rparr>],
              WakeEvent := True\<rparr>)" for s'
    by (simp add: FMQTTWorker_Publish_def WakeWorker_def Enqueue_def)
  have sub: "FMQTTWorker_Subscribe F Q s' =
     (True, s'\<lparr>SubscriptionRequests :=
                SubscriptionRequests s' @ [\<lparr>TopicFilter = F, SubQoS = Q, bSubscribe = True\<rparr>],
              WakeEvent := True\<rparr>)" for s'
    by (simp add: FMQTTWorker_Subscribe_def WakeWorker_def Enqueue_def)
  have client: "worker_of c = Some w \<Longrightarrow>
        fst (UMQTTClient_Publish T P Q R c)
        \<and> worker_of (snd (UMQTTClient_Publish T P Q R c)) = Some (snd (FMQTTWorker_Publish T P Q R w))
        \<and> fst (UMQTTClient_Subscribe F Q c)
        \<and> worker_of (snd (UMQTTClient_Subscribe F Q c)) = Some (snd (FMQTTWorker_Subscribe F Q w))"
    by (auto simp: worker_of_def UMQTTClient_Publish_def UMQTTClient_Subscribe_def pub sub
        split: option.splits)
  from pub [of s] sub [of s] client show ?thesis by blast
qed

theorem Publish_Subscribe_store_QoS_unchanged_witness:
  "(case UMQTTClient_Connect True ''127.0.0.1'' 1883 False UMQTTClient_new of
      Inl f \<Rightarrow> False
    | Inr (ok, c) \<Rightarrow>
        fst (UMQTTClient_Publish ''sensors/temp'' ''21.5'' 7 False c)
        \<and> map_option (\<lambda>w. map QoS (OutgoingMessages w))
             (worker_of (snd (UMQTTClient_Publish ''sensors/temp'' ''21.5'' 7 False c))) = Some [7]
        \<and> fst (UMQTTClient_Subscribe ''sensors/#'' (- 1) c)
        \<and> map_option (\<lambda>w. map SubQoS (SubscriptionRequests w))
             (worker_of (snd (UMQTTClient_Subscribe ''sensors/#'' (- 1) c))) = Some [- 1])"
proof -
  let ?w = "(FMQTTWorker_new True)
           \<lparr>Thread := True, Host := ''127.0.0.1'', Port := 1883, bUseTLS := False, WakeEvent := True\<rparr>"
  obtain c where c: "UMQTTClient_Connect True ''127.0.0.1'' 1883 False UMQTTClient_new = Inr (True, c)"
    and w: "worker_of c = Some ?w"
    by (simp add: worker_of_Connect_new worker_of_def)
  from Publish_Subscribe_store_QoS_unchanged
         [of "''sensors/temp''" "''21.5''" 7 False ?w "''sensors/#''" c ?w]
       Publish_Subscribe_store_QoS_unchanged
         [of "''sensors/temp''" "''21.5''" "- 1" False ?w "''sensors/#''" c ?w]
  show ?thesis
    by (simp add: c w FMQTTWorker_new_def)
qed

end
